theory Spec2Isabelle
  imports Complex_Main "HOL-Library.Word" "HOL-Library.Signed_Division"
begin

unbundle bit_operations_syntax

section \<open>Machine integers and errors\<close>

text \<open>
  The sources use fixed-width integers throughout. They are modelled as words, so that
  \<open>+\<close>, \<open>-\<close> and \<open>*\<close> wrap around exactly as the unsigned C++ operations do.
  \<open>std::size_t\<close> is taken to be 64 bits wide (the target of the repository is a 64-bit
  POSIX system: the file is mapped with \<open>mmap\<close>).
\<close>

type_synonym u8 = "8 word"
type_synonym u16 = "16 word"
type_synonym u32 = "32 word"
type_synonym u64 = "64 word"
type_synonym size_t = "64 word"
type_synonym bytes = "u8 list"

text \<open>
  Every \<open>throw std::runtime_error(msg)\<close> of the sources is one constructor, named after
  its message; a violated \<open>assert\<close> is \<open>AssertionFailed\<close>.
\<close>

datatype error =
    SeekPastEOF                \<comment> \<open>"seek past EOF"\<close>
  | ReadPastEOF                \<comment> \<open>"read past EOF"\<close>
  | ReadBytesPastEOF           \<comment> \<open>"read_bytes past EOF"\<close>
  | SkipPastEOF                \<comment> \<open>"skip past EOF"\<close>
  | StringPastEOF              \<comment> \<open>"string past EOF"\<close>
  | SkipTooLarge               \<comment> \<open>"skip too large"\<close>
  | ArraySkipOverflow          \<comment> \<open>"array skip overflow"\<close>
  | ArrayOfArray               \<comment> \<open>"array-of-array not supported in gguf"\<close>
  | UnknownArrayElemType       \<comment> \<open>"unknown gguf array element type"\<close>
  | UnknownValueType           \<comment> \<open>"unknown gguf value type"\<close>
  | BadMagic                   \<comment> \<open>"not a GGUF file (bad magic)"\<close>
  | DataSectionOutOfBounds     \<comment> \<open>"data section offset out of bounds"\<close>
  | TensorOffsetOutOfBounds    \<comment> \<open>"tensor offset out of bounds: ..."\<close>
  | TensorOutOfBounds          \<comment> \<open>"tensor out of bounds: ..."\<close>
  | U64Overflow                \<comment> \<open>"u64 overflow"\<close>
  | EmptyFile                  \<comment> \<open>"empty file: ..."\<close>
  | OffsetsNotMonotonic        \<comment> \<open>"tensor offsets not monotonic"\<close>
  | AssertionFailed            \<comment> \<open>a violated \<open>assert\<close>\<close>
  | RowLenNotMultiple          \<comment> \<open>"Q4_K/Q6_K row_len not multiple of 256: ..."\<close>
  | InvalidModelConfig         \<comment> \<open>"Layer0Context: invalid model config"\<close>
  | HeadsNotDivisible          \<comment> \<open>"Layer0Context: n_heads must be divisible by n_kv_heads"\<close>
  | KPtrOutOfRange             \<comment> \<open>"KVCacheLayer::k_ptr out of range"\<close>
  | VPtrOutOfRange             \<comment> \<open>"KVCacheLayer::v_ptr out of range"\<close>
  | KVCacheInvalidDims         \<comment> \<open>"KVCacheLayer: invalid dimensions"\<close>
  | RopeDimInvalid             \<comment> \<open>"rope_dim must be non-zero and even"\<close>
  | RopeThetaInvalid           \<comment> \<open>"rope theta must be > 0"\<close>
  | StepPosOutOfRange          \<comment> \<open>"Layer0Context::step pos out of range"\<close>

section \<open>The byte reader (reader.h)\<close>

record Reader =
  r_data :: bytes
  r_size :: size_t
  r_pos :: size_t

definition mk_Reader :: "bytes \<Rightarrow> size_t \<Rightarrow> Reader" where
  "mk_Reader d n = \<lparr>r_data = d, r_size = n, r_pos = 0\<rparr>"

text \<open>\<open>Reader::skip\<close>: the bound is tested on the wrapped sum \<open>pos_ + n\<close>.\<close>

definition skip :: "Reader \<Rightarrow> size_t \<Rightarrow> error + Reader" where
  "skip r n =
     (if r_pos r + n > r_size r then Inl SkipPastEOF
      else Inr (r\<lparr>r_pos := r_pos r + n\<rparr>))"

text \<open>
  \<open>Reader::read<T>\<close> and \<open>Reader::read_bytes\<close> copy \<open>n\<close> bytes at the cursor.
  \<open>raw_bytes\<close> is the \<open>memcpy\<close>.
\<close>

definition raw_bytes :: "Reader \<Rightarrow> nat \<Rightarrow> bytes" where
  "raw_bytes r n = take n (drop (unat (r_pos r)) (r_data r))"

definition read_bytes :: "Reader \<Rightarrow> size_t \<Rightarrow> error + (bytes \<times> Reader)" where
  "read_bytes r n =
     (if r_pos r + n > r_size r then Inl ReadBytesPastEOF
      else Inr (raw_bytes r (unat n), r\<lparr>r_pos := r_pos r + n\<rparr>))"

text \<open>The value of a little-endian byte sequence (the target is little-endian).\<close>

fun le_word :: "bytes \<Rightarrow> 'a::len word" where
  "le_word [] = 0"
| "le_word (b # bs) = ucast b OR push_bit 8 (le_word bs)"

definition read_raw :: "Reader \<Rightarrow> size_t \<Rightarrow> error + (bytes \<times> Reader)" where
  "read_raw r n =
     (if r_pos r + n > r_size r then Inl ReadPastEOF
      else Inr (raw_bytes r (unat n), r\<lparr>r_pos := r_pos r + n\<rparr>))"

definition read_u8 :: "Reader \<Rightarrow> error + (u8 \<times> Reader)" where
  "read_u8 r = (case read_raw r 1 of Inl e \<Rightarrow> Inl e | Inr (bs, r') \<Rightarrow> Inr (le_word bs, r'))"

definition read_u16 :: "Reader \<Rightarrow> error + (u16 \<times> Reader)" where
  "read_u16 r = (case read_raw r 2 of Inl e \<Rightarrow> Inl e | Inr (bs, r') \<Rightarrow> Inr (le_word bs, r'))"

definition read_u32 :: "Reader \<Rightarrow> error + (u32 \<times> Reader)" where
  "read_u32 r = (case read_raw r 4 of Inl e \<Rightarrow> Inl e | Inr (bs, r') \<Rightarrow> Inr (le_word bs, r'))"

definition read_u64 :: "Reader \<Rightarrow> error + (u64 \<times> Reader)" where
  "read_u64 r = (case read_raw r 8 of Inl e \<Rightarrow> Inl e | Inr (bs, r') \<Rightarrow> Inr (le_word bs, r'))"

text \<open>
  \<open>Reader::read_string\<close>: a \<open>u64\<close> length, then that many bytes. Here the bound is
  tested as \<open>len > size_ - pos_\<close>, which cannot wrap.
\<close>

definition read_string :: "Reader \<Rightarrow> error + (bytes \<times> Reader)" where
  "read_string r =
     (case read_u64 r of
        Inl e \<Rightarrow> Inl e
      | Inr (len, r') \<Rightarrow>
          if len > r_size r' - r_pos r' then Inl StringPastEOF
          else Inr (raw_bytes r' (unat len), r'\<lparr>r_pos := r_pos r' + len\<rparr>))"

text \<open>\<open>align_up\<close>, on \<open>std::size_t\<close>.\<close>

definition align_up :: "size_t \<Rightarrow> size_t \<Rightarrow> size_t" where
  "align_up v alignment =
     (if alignment = 0 then v
      else let r = v mod alignment in if r = 0 then v else v + (alignment - r))"

section \<open>GGUF data model (gguf.h)\<close>

datatype ValueType =
    Uint8 | Int8 | Uint16 | Int16 | Uint32 | Int32 | Float32 | Bool | String | Array
  | Uint64 | Int64 | Float64

text \<open>
  \<open>static_cast<ValueType>(u32)\<close>: the enumerators are 0 to 12; any other code falls
  through every \<open>switch\<close> of the parser, which is \<open>None\<close> here.
\<close>

definition value_type_of :: "u32 \<Rightarrow> ValueType option" where
  "value_type_of c =
     (if c = 0 then Some Uint8 else if c = 1 then Some Int8
      else if c = 2 then Some Uint16 else if c = 3 then Some Int16
      else if c = 4 then Some Uint32 else if c = 5 then Some Int32
      else if c = 6 then Some Float32 else if c = 7 then Some Bool
      else if c = 8 then Some String else if c = 9 then Some Array
      else if c = 10 then Some Uint64 else if c = 11 then Some Int64
      else if c = 12 then Some Float64 else None)"

record ArraySummary =
  elem_type :: ValueType
  length_of :: u64

text \<open>
  The payload variant. Signed integers keep their bits (\<open>sint\<close> reads them); floats
  keep their bit pattern.
\<close>

datatype Payload =
    P_u8 u8 | P_i8 u8 | P_u16 u16 | P_i16 u16 | P_u32 u32 | P_i32 u32
  | P_u64 u64 | P_i64 u64 | P_f32 u32 | P_f64 u64 | P_bool bool | P_string bytes
  | P_array ArraySummary

record Value =
  vtype :: ValueType
  payload :: Payload

record KV =
  key :: bytes
  kvalue :: Value

record Header =
  version :: u32
  tensor_count :: u64
  metadata_kv_count :: u64

record TensorInfo =
  name :: bytes
  dims :: "u64 list"
  ggml_type :: u32
  offset :: u64

text \<open>
  The two \<open>std::unordered_map<std::string, std::size_t>\<close> indexes are maps from the
  key's bytes to a position in the vector.
\<close>

type_synonym index_map = "bytes \<rightharpoonup> nat"

record File =
  header :: Header
  metadata :: "KV list"
  tensors :: "TensorInfo list"
  data_section_offset :: size_t
  tensor_index_by_name :: index_map
  kv_index_by_key :: index_map

record GGMLTypeTraits =
  traits_name :: string
  block_size :: u32
  type_size :: u32

section \<open>The GGUF parser (gguf.cpp)\<close>

text \<open>
  \<open>mul_overflow_u64\<close> and \<open>add_overflow_u64\<close> return \<open>true\<close> on overflow and write the
  result otherwise: \<open>None\<close> is the overflow.
\<close>

definition mul_overflow_u64 :: "u64 \<Rightarrow> u64 \<Rightarrow> u64 option" where
  "mul_overflow_u64 a b =
     (if a = 0 \<or> b = 0 then Some 0
      else if a > (- 1) div b then None
      else Some (a * b))"

definition add_overflow_u64 :: "u64 \<Rightarrow> u64 \<Rightarrow> u64 option" where
  "add_overflow_u64 a b = (if a > (- 1) - b then None else Some (a + b))"

definition skip_u64 :: "Reader \<Rightarrow> u64 \<Rightarrow> error + Reader" where
  "skip_u64 r nbytes =
     (if unat nbytes > unat (- 1 :: size_t) then Inl SkipTooLarge
      else skip r (ucast nbytes))"

text \<open>The loop over the strings of an array of strings.\<close>

fun skip_strings :: "nat \<Rightarrow> Reader \<Rightarrow> error + Reader" where
  "skip_strings 0 r = Inr r"
| "skip_strings (Suc n) r =
     (case read_string r of Inl e \<Rightarrow> Inl e | Inr (s, r') \<Rightarrow> skip_strings n r')"

definition skip_scaled :: "Reader \<Rightarrow> u64 \<Rightarrow> u64 \<Rightarrow> error + Reader" where
  "skip_scaled r n w =
     (case mul_overflow_u64 n w of
        None \<Rightarrow> Inl ArraySkipOverflow
      | Some nbytes \<Rightarrow> skip_u64 r nbytes)"

text \<open>
  The inner \<open>switch (elem_type)\<close> of \<open>read_value\<close>: advance over the payload. A code
  that is no enumerator reaches "unknown gguf array element type" (in \<open>read_array\<close>).
\<close>

definition skip_array_payload :: "Reader \<Rightarrow> ValueType \<Rightarrow> u64 \<Rightarrow> error + Reader" where
  "skip_array_payload r et n =
     (case et of
        String \<Rightarrow> skip_strings (unat n) r
      | Uint8 \<Rightarrow> skip_u64 r n
      | Int8 \<Rightarrow> skip_u64 r n
      | Bool \<Rightarrow> skip_u64 r n
      | Uint16 \<Rightarrow> skip_scaled r n 2
      | Int16 \<Rightarrow> skip_scaled r n 2
      | Uint32 \<Rightarrow> skip_scaled r n 4
      | Int32 \<Rightarrow> skip_scaled r n 4
      | Float32 \<Rightarrow> skip_scaled r n 4
      | Uint64 \<Rightarrow> skip_scaled r n 8
      | Int64 \<Rightarrow> skip_scaled r n 8
      | Float64 \<Rightarrow> skip_scaled r n 8
      | Array \<Rightarrow> Inl ArrayOfArray)"

definition scalar :: "ValueType \<Rightarrow> ('a \<Rightarrow> Payload) \<Rightarrow> error + ('a \<times> Reader)
    \<Rightarrow> error + (Value \<times> Reader)" where
  "scalar t mk res =
     (case res of Inl e \<Rightarrow> Inl e
      | Inr (x, r') \<Rightarrow> Inr (\<lparr>vtype = t, payload = mk x\<rparr>, r'))"

definition read_array :: "Reader \<Rightarrow> error + (Value \<times> Reader)" where
  "read_array r =
     (case read_u32 r of Inl e \<Rightarrow> Inl e
      | Inr (c, r1) \<Rightarrow>
     (case read_u64 r1 of Inl e \<Rightarrow> Inl e
      | Inr (n, r2) \<Rightarrow>
     (case value_type_of c of None \<Rightarrow> Inl UnknownArrayElemType
      | Some et \<Rightarrow>
     (case skip_array_payload r2 et n of Inl e \<Rightarrow> Inl e
      | Inr r3 \<Rightarrow>
          Inr (\<lparr>vtype = Array, payload = P_array \<lparr>elem_type = et, length_of = n\<rparr>\<rparr>, r3)))))"

definition read_value :: "Reader \<Rightarrow> u32 \<Rightarrow> error + (Value \<times> Reader)" where
  "read_value r t =
     (case value_type_of t of
        None \<Rightarrow> Inl UnknownValueType
      | Some Uint8 \<Rightarrow> scalar Uint8 P_u8 (read_u8 r)
      | Some Int8 \<Rightarrow> scalar Int8 P_i8 (read_u8 r)
      | Some Uint16 \<Rightarrow> scalar Uint16 P_u16 (read_u16 r)
      | Some Int16 \<Rightarrow> scalar Int16 P_i16 (read_u16 r)
      | Some Uint32 \<Rightarrow> scalar Uint32 P_u32 (read_u32 r)
      | Some Int32 \<Rightarrow> scalar Int32 P_i32 (read_u32 r)
      | Some Uint64 \<Rightarrow> scalar Uint64 P_u64 (read_u64 r)
      | Some Int64 \<Rightarrow> scalar Int64 P_i64 (read_u64 r)
      | Some Float32 \<Rightarrow> scalar Float32 P_f32 (read_u32 r)
      | Some Float64 \<Rightarrow> scalar Float64 P_f64 (read_u64 r)
      | Some Bool \<Rightarrow> scalar Bool (\<lambda>b. P_bool (b \<noteq> 0)) (read_u8 r)
      | Some String \<Rightarrow> scalar String P_string (read_string r)
      | Some Array \<Rightarrow> read_array r)"

definition ggml_type_traits :: "u32 \<Rightarrow> GGMLTypeTraits option" where
  "ggml_type_traits t =
     (if t = 0 then Some \<lparr>traits_name = ''F32'', block_size = 1, type_size = 4\<rparr>
      else if t = 1 then Some \<lparr>traits_name = ''F16'', block_size = 1, type_size = 2\<rparr>
      else if t = 12 then Some \<lparr>traits_name = ''Q4_K'', block_size = 256, type_size = 144\<rparr>
      else if t = 14 then Some \<lparr>traits_name = ''Q6_K'', block_size = 256, type_size = 210\<rparr>
      else None)"

text \<open>The loop \<open>for i = 1 .. dims.size() - 1\<close> of \<open>tensor_nbytes\<close>.\<close>

fun mul_dims :: "u64 \<Rightarrow> u64 list \<Rightarrow> u64 option" where
  "mul_dims nblocks [] = Some nblocks"
| "mul_dims nblocks (d # ds) =
     (case mul_overflow_u64 nblocks d of None \<Rightarrow> None | Some nb \<Rightarrow> mul_dims nb ds)"

definition blocks_dim0 :: "GGMLTypeTraits \<Rightarrow> u64 \<Rightarrow> u64 option" where
  "blocks_dim0 traits d0 =
     (if block_size traits = 1 then Some d0
      else let bs = (ucast (block_size traits) :: u64); b = d0 div bs in
        if d0 mod bs \<noteq> 0 then (if b = - 1 then None else Some (b + 1)) else Some b)"

text \<open>\<open>tensor_nbytes\<close>: \<open>None\<close> is \<open>std::nullopt\<close>, for an unknown type and for an overflow.\<close>

definition tensor_nbytes :: "TensorInfo \<Rightarrow> u64 option" where
  "tensor_nbytes t =
     (case ggml_type_traits (ggml_type t) of
        None \<Rightarrow> None
      | Some traits \<Rightarrow>
          (case dims t of
             [] \<Rightarrow> Some 0
           | d0 # ds \<Rightarrow>
               (case blocks_dim0 traits d0 of
                  None \<Rightarrow> None
                | Some b0 \<Rightarrow>
                    (case mul_dims b0 ds of
                       None \<Rightarrow> None
                     | Some nblocks \<Rightarrow> mul_overflow_u64 nblocks (ucast (type_size traits))))))"

text \<open>\<open>unordered_map::emplace\<close> inserts only when the key is absent.\<close>

definition emplace :: "index_map \<Rightarrow> bytes \<Rightarrow> nat \<Rightarrow> index_map" where
  "emplace m k v = (case m k of None \<Rightarrow> m(k \<mapsto> v) | Some old \<Rightarrow> m)"

text \<open>The metadata loop of \<open>parse\<close>, \<open>n\<close> entries still to read.\<close>

fun parse_metadata :: "nat \<Rightarrow> Reader \<Rightarrow> KV list \<Rightarrow> index_map
    \<Rightarrow> error + (Reader \<times> KV list \<times> index_map)" where
  "parse_metadata 0 r md idx = Inr (r, md, idx)"
| "parse_metadata (Suc n) r md idx =
     (case read_string r of Inl e \<Rightarrow> Inl e
      | Inr (k, r1) \<Rightarrow>
     (case read_u32 r1 of Inl e \<Rightarrow> Inl e
      | Inr (t, r2) \<Rightarrow>
     (case read_value r2 t of Inl e \<Rightarrow> Inl e
      | Inr (v, r3) \<Rightarrow>
          parse_metadata n r3 (md @ [\<lparr>key = k, kvalue = v\<rparr>]) (emplace idx k (length md)))))"

fun read_dims :: "nat \<Rightarrow> Reader \<Rightarrow> error + (u64 list \<times> Reader)" where
  "read_dims 0 r = Inr ([], r)"
| "read_dims (Suc n) r =
     (case read_u64 r of Inl e \<Rightarrow> Inl e
      | Inr (d, r1) \<Rightarrow>
     (case read_dims n r1 of Inl e \<Rightarrow> Inl e
      | Inr (ds, r2) \<Rightarrow> Inr (d # ds, r2)))"

definition read_tensor_info :: "Reader \<Rightarrow> error + (TensorInfo \<times> Reader)" where
  "read_tensor_info r =
     (case read_string r of Inl e \<Rightarrow> Inl e
      | Inr (nm, r1) \<Rightarrow>
     (case read_u32 r1 of Inl e \<Rightarrow> Inl e
      | Inr (n_dims, r2) \<Rightarrow>
     (case read_dims (unat n_dims) r2 of Inl e \<Rightarrow> Inl e
      | Inr (ds, r3) \<Rightarrow>
     (case read_u32 r3 of Inl e \<Rightarrow> Inl e
      | Inr (ty, r4) \<Rightarrow>
     (case read_u64 r4 of Inl e \<Rightarrow> Inl e
      | Inr (off, r5) \<Rightarrow>
          Inr (\<lparr>name = nm, dims = ds, ggml_type = ty, offset = off\<rparr>, r5))))))"

fun parse_tensors :: "nat \<Rightarrow> Reader \<Rightarrow> TensorInfo list \<Rightarrow> index_map
    \<Rightarrow> error + (Reader \<times> TensorInfo list \<times> index_map)" where
  "parse_tensors 0 r ts idx = Inr (r, ts, idx)"
| "parse_tensors (Suc n) r ts idx =
     (case read_tensor_info r of Inl e \<Rightarrow> Inl e
      | Inr (ti, r1) \<Rightarrow> parse_tensors n r1 (ts @ [ti]) (emplace idx (name ti) (length ts)))"

definition kDefaultAlignment :: u32 where
  "kDefaultAlignment = 32"

text \<open>The bytes of the key \<open>"general.alignment"\<close>.\<close>

definition general_alignment :: bytes where
  "general_alignment =
     [103, 101, 110, 101, 114, 97, 108, 46, 97, 108, 105, 103, 110, 109, 101, 110, 116]"

definition find_alignment :: "KV list \<Rightarrow> index_map \<Rightarrow> u32" where
  "find_alignment md idx =
     (case idx general_alignment of
        None \<Rightarrow> kDefaultAlignment
      | Some i \<Rightarrow>
          (case payload (kvalue (md ! i)) of
             P_u32 a \<Rightarrow> a
           | P_u64 a \<Rightarrow> if a \<le> 0xFFFFFFFF then ucast a else kDefaultAlignment
           | _ \<Rightarrow> kDefaultAlignment))"

text \<open>The final loop of \<open>parse\<close>: every tensor range is tested against the file size.\<close>

fun check_tensors :: "size_t \<Rightarrow> size_t \<Rightarrow> TensorInfo list \<Rightarrow> error + unit" where
  "check_tensors dso fsize [] = Inr ()"
| "check_tensors dso fsize (t # ts) =
     (case add_overflow_u64 dso (offset t) of
        None \<Rightarrow> Inl TensorOffsetOutOfBounds
      | Some abs_off \<Rightarrow>
          if abs_off > fsize then Inl TensorOffsetOutOfBounds
          else (case tensor_nbytes t of
                  None \<Rightarrow> check_tensors dso fsize ts
                | Some nbytes \<Rightarrow>
                    (case add_overflow_u64 abs_off nbytes of
                       None \<Rightarrow> Inl TensorOutOfBounds
                     | Some e \<Rightarrow>
                         if e > fsize then Inl TensorOutOfBounds
                         else check_tensors dso fsize ts)))"

definition gguf_magic :: bytes where
  "gguf_magic = [71, 71, 85, 70]"

definition finish_parse :: "size_t \<Rightarrow> Header \<Rightarrow> Reader \<Rightarrow> KV list \<Rightarrow> index_map
    \<Rightarrow> TensorInfo list \<Rightarrow> index_map \<Rightarrow> error + File" where
  "finish_parse fsize h r md kidx ts tidx =
     (let alignment = find_alignment md kidx;
          dso = align_up (r_pos r) (ucast alignment)
      in if dso > fsize then Inl DataSectionOutOfBounds
         else (case check_tensors dso fsize ts of
                 Inl e \<Rightarrow> Inl e
               | Inr u \<Rightarrow>
                   Inr \<lparr>header = h, metadata = md, tensors = ts, data_section_offset = dso,
                        tensor_index_by_name = tidx, kv_index_by_key = kidx\<rparr>))"

definition parse :: "bytes \<Rightarrow> size_t \<Rightarrow> error + File" where
  "parse file_data fsize =
     (case read_bytes (mk_Reader file_data fsize) 4 of Inl e \<Rightarrow> Inl e
      | Inr (magic, r1) \<Rightarrow>
          if magic \<noteq> gguf_magic then Inl BadMagic
          else
     (case read_u32 r1 of Inl e \<Rightarrow> Inl e
      | Inr (ver, r2) \<Rightarrow>
     (case read_u64 r2 of Inl e \<Rightarrow> Inl e
      | Inr (tc, r3) \<Rightarrow>
     (case read_u64 r3 of Inl e \<Rightarrow> Inl e
      | Inr (kc, r4) \<Rightarrow>
     (case parse_metadata (unat kc) r4 [] Map.empty of Inl e \<Rightarrow> Inl e
      | Inr (r5, md, kidx) \<Rightarrow>
     (case parse_tensors (unat tc) r5 [] Map.empty of Inl e \<Rightarrow> Inl e
      | Inr (r6, ts, tidx) \<Rightarrow>
          finish_parse fsize
            \<lparr>version = ver, tensor_count = tc, metadata_kv_count = kc\<rparr> r6 md kidx ts tidx))))))"

section \<open>Example files\<close>


section \<open>Auxiliary notions for the statements\<close>









section \<open>The loader (gguf_loader.cpp, mapped_file.h)\<close>

text \<open>\<open>checked_add_u64\<close> of the loader throws "u64 overflow".\<close>

definition checked_add_u64 :: "u64 \<Rightarrow> u64 \<Rightarrow> error + u64" where
  "checked_add_u64 a b = (if a > (- 1) - b then Inl U64Overflow else Inr (a + b))"

record GGUFLoader =
  mapped :: bytes
  gguf :: File
  tensor_size_from_offsets :: "u64 list"

text \<open>
  \<open>MappedFile\<close>: the file is given by its contents; of the constructor's failures only
  the empty file depends on them (the others are failures of \<open>open\<close>, \<open>fstat\<close> and
  \<open>mmap\<close>).
\<close>

definition MappedFile :: "bytes \<Rightarrow> error + bytes" where
  "MappedFile contents = (if contents = [] then Inl EmptyFile else Inr contents)"

text \<open>
  \<open>std::iota\<close> and \<open>std::sort\<close> by offset. \<open>std::sort\<close> may order tensors of equal
  offset either way; the model takes the stable order, and the loop below is proved not to
  fail for every list of indices sorted by offset.
\<close>

definition sorted_indices :: "TensorInfo list \<Rightarrow> nat list" where
  "sorted_indices ts = sort_key (\<lambda>i. offset (ts ! i)) [0..<length ts]"

text \<open>The loop of the constructor over the sorted indices.\<close>

fun sizes_loop :: "size_t \<Rightarrow> u64 \<Rightarrow> TensorInfo list \<Rightarrow> nat list \<Rightarrow> u64 list
    \<Rightarrow> error + u64 list" where
  "sizes_loop dso fsize ts [] sizes = Inr sizes"
| "sizes_loop dso fsize ts (cur # rest) sizes =
     (case checked_add_u64 dso (offset (ts ! cur)) of
        Inl e \<Rightarrow> Inl e
      | Inr cur_abs \<Rightarrow>
          (case (case rest of
                   [] \<Rightarrow> Inr fsize
                 | nxt # later \<Rightarrow> checked_add_u64 dso (offset (ts ! nxt))) of
             Inl e \<Rightarrow> Inl e
           | Inr next_abs \<Rightarrow>
               if next_abs < cur_abs then Inl OffsetsNotMonotonic
               else sizes_loop dso fsize ts rest (sizes[cur := next_abs - cur_abs])))"

definition GGUFLoader_ctor :: "bytes \<Rightarrow> error + GGUFLoader" where
  "GGUFLoader_ctor contents =
     (case MappedFile contents of
        Inl e \<Rightarrow> Inl e
      | Inr m \<Rightarrow>
          (case parse m (of_nat (length m)) of
             Inl e \<Rightarrow> Inl e
           | Inr g \<Rightarrow>
               (case sizes_loop (data_section_offset g) (of_nat (length m)) (tensors g)
                       (sorted_indices (tensors g)) (replicate (length (tensors g)) 0) of
                  Inl e \<Rightarrow> Inl e
                | Inr sizes \<Rightarrow>
                    Inr \<lparr>mapped = m, gguf = g, tensor_size_from_offsets = sizes\<rparr>)))"

text \<open>
  A 160-byte file with two F32 tensors of dims \<open>[4]\<close>: \<open>"a"\<close> at offset 32 and, after it
  in the directory, \<open>"b"\<close> at offset 0; the data section starts at 96.
\<close>

definition unordered_offsets_file :: bytes where
  "unordered_offsets_file =
     [71, 71, 85, 70, 3, 0, 0, 0, 2, 0, 0, 0, 0, 0, 0, 0, 0, 0, 0, 0, 0, 0, 0, 0, 1, 0,
     0, 0, 0, 0, 0, 0, 97, 1, 0, 0, 0, 4, 0, 0, 0, 0, 0, 0, 0, 0, 0, 0, 0, 32, 0, 0, 0,
     0, 0, 0, 0, 1, 0, 0, 0, 0, 0, 0, 0, 98, 1, 0, 0, 0, 4, 0, 0, 0, 0, 0, 0, 0, 0, 0,
     0, 0, 0, 0, 0, 0, 0, 0, 0, 0, 0, 0, 0, 0, 0, 0, 0, 0, 0, 0, 0, 0, 0, 0, 0, 0, 0, 0,
     0, 0, 0, 0, 0, 0, 0, 0, 0, 0, 0, 0, 0, 0, 0, 0, 0, 0, 0, 0, 0, 0, 0, 0, 0, 0, 0, 0,
     0, 0, 0, 0, 0, 0, 0, 0, 0, 0, 0, 0, 0, 0, 0, 0, 0, 0, 0, 0, 0, 0, 0, 0]"


section \<open>Floating-point values\<close>

text \<open>
  A \<open>float\<close> or \<open>double\<close> is the number it denotes, an infinity or a NaN. The two zeros
  are one value, \<open>Fin 0\<close>, and NaNs carry no payload; where a sign of zero or a payload
  matters (the half-precision decoder), the bit pattern is used instead.
\<close>

datatype fp = Fin rat | PInf | NInf | NaN



section \<open>The layer engine (gguf_loader.h, layer0.h, layer0.cpp, kernels/rope.h)\<close>














section \<open>Half precision to single precision (ggml_fp16.h)\<close>

text \<open>
  The loop \<open>while ((mant & 0x0400u) == 0) { mant <<= 1; exp -= 1; }\<close> on 32-bit values.
  It does not end when \<open>mant\<close> is 0, which is \<open>None\<close>; \<open>fp16_to_fp32\<close> enters it with a
  non-zero mantissa only.
\<close>

partial_function (option) normalize_subnormal :: "u32 \<Rightarrow> u32 \<Rightarrow> (u32 \<times> u32) option" where
  "normalize_subnormal mant ex =
     (if mant AND 0x0400 = 0 then normalize_subnormal (push_bit 1 mant) (ex - 1)
      else Some (mant, ex))"

text \<open>\<open>fp16_to_fp32\<close>, up to the final \<open>std::bit_cast<float>\<close>: the 32 bits of the result.\<close>

definition fp16_to_fp32 :: "u16 \<Rightarrow> u32 option" where
  "fp16_to_fp32 h =
     (let sign = push_bit 16 (ucast (h AND 0x8000) :: u32);
          ex = drop_bit 10 (ucast (h AND 0x7C00) :: u32);
          mant = (ucast (h AND 0x03FF) :: u32)
      in if ex = 0 then
           (if mant = 0 then Some sign
            else (case normalize_subnormal mant (127 - 15 + 1) of
                    None \<Rightarrow> None
                  | Some (m, e) \<Rightarrow> Some (sign OR push_bit 23 e OR push_bit 13 (m AND 0x03FF))))
         else if ex = 31 then Some (sign OR 0x7F800000 OR push_bit 13 mant)
         else Some (sign OR push_bit 23 (ex + (127 - 15)) OR push_bit 13 mant))"

text \<open>
  The value of an IEEE 754 binary interchange format with exponent bias \<open>bias\<close> and \<open>p\<close>
  fraction bits, from its sign \<open>s\<close>, biased exponent \<open>e\<close> and fraction \<open>m\<close>: an infinity or a
  NaN for the all-ones exponent, \<open>(-1)^s \<cdot> 2^(1 - bias) \<cdot> m / 2^p\<close> for the subnormal
  numbers and \<open>(-1)^s \<cdot> 2^(e - bias) \<cdot> (1 + m / 2^p)\<close> for the normal ones. \<open>f16_value\<close> reads
  binary16, \<open>f32_value\<close> reads binary32: the latter is what \<open>std::bit_cast<float>\<close> denotes.
\<close>

definition ieee_value :: "nat \<Rightarrow> nat \<Rightarrow> bool \<Rightarrow> nat \<Rightarrow> nat \<Rightarrow> fp" where
  "ieee_value bias p s e m =
     (if e = 2 * bias + 1 then (if m = 0 then (if s then NInf else PInf) else NaN)
      else Fin ((if s then - 1 else 1) * of_nat ((if e = 0 then 0 else 2 ^ p) + m)
                  * 2 ^ max e 1 / 2 ^ (bias + p)))"

definition f16_value :: "u16 \<Rightarrow> fp" where
  "f16_value h = ieee_value 15 10 (bit h 15) (unat (drop_bit 10 h AND 0x1F)) (unat (h AND 0x3FF))"

definition f32_value :: "u32 \<Rightarrow> fp" where
  "f32_value b =
     ieee_value 127 23 (bit b 31) (unat (drop_bit 23 b AND 0xFF)) (unat (b AND 0x7FFFFF))"

section \<open>Floating-point arithmetic\<close>

text \<open>
  An arithmetic operation of IEEE 754 is the exact operation followed by a rounding to the
  format. The rounding (to \<open>float\<close> or to \<open>double\<close>, overflow to an infinity included) is a
  parameter of the model; the infinities and NaN follow the standard's rules.
\<close>

type_synonym rounding = "rat \<Rightarrow> fp"

fun fp_neg :: "fp \<Rightarrow> fp" where
  "fp_neg (Fin a) = Fin (- a)"
| "fp_neg PInf = NInf"
| "fp_neg NInf = PInf"
| "fp_neg NaN = NaN"

fun fp_mul :: "rounding \<Rightarrow> fp \<Rightarrow> fp \<Rightarrow> fp" where
  "fp_mul r NaN y = NaN"
| "fp_mul r x NaN = NaN"
| "fp_mul r (Fin a) (Fin b) = r (a * b)"
| "fp_mul r (Fin a) PInf = (if a = 0 then NaN else if 0 < a then PInf else NInf)"
| "fp_mul r (Fin a) NInf = (if a = 0 then NaN else if 0 < a then NInf else PInf)"
| "fp_mul r PInf (Fin b) = (if b = 0 then NaN else if 0 < b then PInf else NInf)"
| "fp_mul r NInf (Fin b) = (if b = 0 then NaN else if 0 < b then NInf else PInf)"
| "fp_mul r PInf PInf = PInf"
| "fp_mul r PInf NInf = NInf"
| "fp_mul r NInf PInf = NInf"
| "fp_mul r NInf NInf = PInf"

fun fp_add :: "rounding \<Rightarrow> fp \<Rightarrow> fp \<Rightarrow> fp" where
  "fp_add r NaN y = NaN"
| "fp_add r x NaN = NaN"
| "fp_add r (Fin a) (Fin b) = r (a + b)"
| "fp_add r PInf NInf = NaN"
| "fp_add r NInf PInf = NaN"
| "fp_add r PInf y = PInf"
| "fp_add r NInf y = NInf"
| "fp_add r x PInf = PInf"
| "fp_add r x NInf = NInf"

definition fp_sub :: "rounding \<Rightarrow> fp \<Rightarrow> fp \<Rightarrow> fp" where
  "fp_sub r x y = fp_add r x (fp_neg y)"

text \<open>The conversions of a small integer to \<open>float\<close> are exact.\<close>

definition fp_of_u8 :: "u8 \<Rightarrow> fp" where
  "fp_of_u8 b = Fin (of_nat (unat b))"


text \<open>
  \<open>fp16_to_fp32\<close> as a \<open>float\<close>. The decoder returns for every half (lemma
  \<open>fp16_decode\<close> below), so the second case is never taken.
\<close>

definition half_to_float :: "u16 \<Rightarrow> fp" where
  "half_to_float h = (case fp16_to_fp32 h of Some b \<Rightarrow> f32_value b | None \<Rightarrow> NaN)"

section \<open>The block dequantizers (ggml_quants.h, dequant_q4_k.cpp, dequant_q6_k.cpp)\<close>

text \<open>
  The arrays of a block are lists: \<open>scales[12]\<close> and \<open>qs[128]\<close> of a Q4_K block,
  \<open>ql[128]\<close>, \<open>qh[64]\<close> and \<open>scales[16]\<close> (of \<open>int8_t\<close>, kept as bits) of a Q6_K block.
\<close>

record block_q4_K =
  q4_d :: u16
  q4_dmin :: u16
  q4_scales :: "u8 list"
  q4_qs :: "u8 list"


definition QK_K :: int where
  "QK_K = 256"

definition get_scale_min_k4 :: "nat \<Rightarrow> u8 list \<Rightarrow> u8 \<times> u8" where
  "get_scale_min_k4 j q =
     (if j < 4 then (q ! j AND 63, q ! (j + 4) AND 63)
      else ((q ! (j + 4) AND 0xF) OR push_bit 4 (drop_bit 6 (q ! (j - 4))),
            drop_bit 4 (q ! (j + 4)) OR push_bit 4 (drop_bit 6 (q ! (j - 0)))))"

text \<open>
  One pass of the loop \<open>for (j = 0; j < QK_K; j += 64)\<close>, the \<open>g\<close>-th: \<open>q\<close> has advanced by
  \<open>32 g\<close> bytes and \<open>is\<close> is \<open>2 g\<close>. It writes 32 floats from the low nibbles, then 32 from
  the high nibbles.
\<close>

definition q4_group :: "rounding \<Rightarrow> block_q4_K \<Rightarrow> nat \<Rightarrow> fp list" where
  "q4_group r x g =
     (let d = half_to_float (q4_d x);
          dmin = half_to_float (q4_dmin x);
          q = drop (32 * g) (q4_qs x);
          is = 2 * g;
          (sc1, m1) = get_scale_min_k4 (is + 0) (q4_scales x);
          d1 = fp_mul r d (fp_of_u8 sc1);
          min1 = fp_mul r dmin (fp_of_u8 m1);
          (sc2, m2) = get_scale_min_k4 (is + 1) (q4_scales x);
          d2 = fp_mul r d (fp_of_u8 sc2);
          min2 = fp_mul r dmin (fp_of_u8 m2)
      in map (\<lambda>l. fp_sub r (fp_mul r d1 (fp_of_u8 (q ! l AND 0xF))) min1) [0..<32]
         @ map (\<lambda>l. fp_sub r (fp_mul r d2 (fp_of_u8 (drop_bit 4 (q ! l)))) min2) [0..<32])"

definition q4_block :: "rounding \<Rightarrow> block_q4_K \<Rightarrow> fp list" where
  "q4_block r x = concat (map (q4_group r x) [0..<4])"

text \<open>
  \<open>dequantize_row_q4_k(x, y, k)\<close>: the result is the buffer \<open>y\<close> after the call. The
  \<open>assert\<close> is taken as compiled in; the count of blocks is \<open>k / QK_K\<close> narrowed to
  \<open>int\<close>.
\<close>

definition dequantize_row_q4_k :: "rounding \<Rightarrow> block_q4_K list \<Rightarrow> fp list \<Rightarrow> int
    \<Rightarrow> error + fp list" where
  "dequantize_row_q4_k r x y k =
     (if k smod QK_K \<noteq> 0 then Inl AssertionFailed
      else let nb = sint (word_of_int (k sdiv QK_K) :: 32 word);
               out = concat (map (\<lambda>i. q4_block r (x ! i)) [0..<nat nb])
           in Inr (out @ drop (length out) y))"

text \<open>
  The block with \<open>d = 1.0\<close> (half \<open>0x3C00\<close>), \<open>dmin = 0.0\<close>, every scale byte 1 and every
  \<open>qs\<close> byte \<open>0x10\<close>.
\<close>

definition unit_q4_block :: block_q4_K where
  "unit_q4_block =
     \<lparr>q4_d = 0x3C00, q4_dmin = 0x0000, q4_scales = replicate 12 1, q4_qs = replicate 128 0x10\<rparr>"






section \<open>Softmax (kernels/softmax.h)\<close>









section \<open>The reader's cursor\<close>

lemma skip_succeeds_iff:
  "(\<exists>r'. skip r n = Inr r') \<longleftrightarrow> (unat (r_pos r) + unat n) mod 2 ^ 64 \<le> unat (r_size r)"
  by (auto simp: skip_def word_le_nat_alt unat_word_ariths word_less_nat_alt not_less)

text \<open>
  C10 (the code departs from the claim). The claim: for every reader with
  \<open>pos \<le> size\<close> and every \<open>n\<close>, \<open>skip n\<close> succeeds exactly when \<open>pos + n \<le> size\<close> over
  unbounded integers, so the cursor never decreases. In the code the sum \<open>pos_ + n\<close> is a
  \<open>std::size_t\<close> and wraps: with \<open>size = 20\<close>, \<open>pos = 10\<close> and \<open>n = 2^64 - 5\<close> the unbounded
  sum exceeds the size, yet \<open>skip\<close> succeeds and moves the cursor back from 10 to 5.
\<close>

theorem skip_wraps_cursor_backwards:
  "skip \<lparr>r_data = replicate 20 0, r_size = 20, r_pos = 10\<rparr> (2 ^ 64 - 5)
     = Inr \<lparr>r_data = replicate 20 0, r_size = 20, r_pos = 5\<rparr>
   \<and> unat (10 :: size_t) + unat (2 ^ 64 - 5 :: size_t) > unat (20 :: size_t)"
  by (simp add: skip_def)

section \<open>The lookup indexes of the parser\<close>







text \<open>What a successful \<open>parse\<close> went through.\<close>

lemma parse_Inr_D:
  assumes "parse file_data fsize = Inr f"
  obtains r4 r5 r6 where
    "parse_metadata (unat (metadata_kv_count (header f))) r4 [] Map.empty
       = Inr (r5, metadata f, kv_index_by_key f)"
    "parse_tensors (unat (tensor_count (header f))) r5 [] Map.empty
       = Inr (r6, tensors f, tensor_index_by_name f)"
    "data_section_offset f
       = align_up (r_pos r6) (ucast (find_alignment (metadata f) (kv_index_by_key f)))"
    "data_section_offset f \<le> fsize"
    "check_tensors (data_section_offset f) fsize (tensors f) = Inr ()"
  using assms
  by (auto simp: parse_def finish_parse_def Let_def not_less
      split: sum.splits prod.splits if_splits)





section \<open>Checked arithmetic\<close>

lemma unat_max_u64: "unat (- 1 :: u64) = 2 ^ 64 - 1"
  by (simp add: unsigned_minus_1_eq_mask mask_eq_exp_minus_1)

lemma mul_overflow_u64_Some:
  "mul_overflow_u64 a b = Some c \<Longrightarrow> unat c = unat a * unat b"
proof -
  assume h: "mul_overflow_u64 a b = Some c"
  show ?thesis
  proof (cases "a = 0 \<or> b = 0")
    case True
    with h show ?thesis by (auto simp: mul_overflow_u64_def)
  next
    case False
    then have b0: "0 < unat b" by (simp add: unat_gt_0)
    from False h have le: "a \<le> (- 1) div b" and c: "c = a * b"
      by (auto simp: mul_overflow_u64_def not_less split: if_splits)
    from le have "unat a \<le> (2 ^ 64 - 1) div unat b"
      by (simp add: word_le_nat_alt unat_div unat_max_u64)
    with b0 have "unat a * unat b \<le> 2 ^ 64 - 1"
      by (simp add: less_eq_div_iff_mult_less_eq)
    then have "unat a * unat b < 2 ^ 64" by simp
    then show ?thesis
      unfolding c by (simp add: unat_word_ariths)
  qed
qed


lemma add_overflow_u64_None_iff:
  "add_overflow_u64 a b = None \<longleftrightarrow> 2 ^ 64 \<le> unat a + unat b"
proof -
  have ub: "unat b < 2 ^ 64"
    using unsigned_less [of b, where 'a = nat] by simp
  then have m: "unat ((- 1 :: u64) - b) = 2 ^ 64 - 1 - unat b"
    by (simp add: unat_sub word_le_nat_alt unat_max_u64)
  have "a > (- 1) - b \<longleftrightarrow> 2 ^ 64 - 1 - unat b < unat a"
    unfolding word_less_nat_alt m ..
  also have "\<dots> \<longleftrightarrow> 2 ^ 64 \<le> unat a + unat b"
    using ub by auto
  finally show ?thesis
    by (simp add: add_overflow_u64_def)
qed

lemma add_overflow_u64_Some:
  "add_overflow_u64 a b = Some c \<Longrightarrow> unat c = unat a + unat b"
proof -
  assume h: "add_overflow_u64 a b = Some c"
  then have "add_overflow_u64 a b \<noteq> None" by simp
  then have "unat a + unat b < 2 ^ 64"
    by (simp add: add_overflow_u64_None_iff)
  moreover from h have "c = a + b"
    by (auto simp: add_overflow_u64_def split: if_splits)
  ultimately show ?thesis
    by (simp add: unat_word_ariths)
qed











lemma mul_dims_overflow:
  "2 ^ 64 \<le> unat b * prod_list (map unat ds) \<Longrightarrow> mul_dims b ds = None"
proof (induction ds arbitrary: b)
  case Nil
  with unsigned_less [of b, where 'a = nat] show ?case by simp
next
  case (Cons d ds)
  show ?case
  proof (cases "mul_overflow_u64 b d")
    case None
    then show ?thesis by simp
  next
    case (Some b')
    from mul_overflow_u64_Some [OF Some] Cons.prems
    have "2 ^ 64 \<le> unat b' * prod_list (map unat ds)"
      by (simp add: mult.assoc)
    from Cons.IH [OF this] Some show ?thesis by simp
  qed
qed



lemma check_tensors_Inr:
  "check_tensors dso fsize ts = Inr u \<Longrightarrow> t \<in> set ts \<Longrightarrow>
     unat dso + unat (offset t) \<le> unat fsize
     \<and> (\<forall>nb. tensor_nbytes t = Some nb \<longrightarrow>
          unat dso + unat (offset t) + unat nb \<le> unat fsize)"
proof (induction ts)
  case Nil
  then show ?case by simp
next
  case (Cons x ts)
  from Cons.prems(1) obtain abs_off where
    a: "add_overflow_u64 dso (offset x) = Some abs_off" and le: "abs_off \<le> fsize"
    by (auto split: option.splits if_splits simp: not_less)
  have x1: "unat dso + unat (offset x) \<le> unat fsize"
    using add_overflow_u64_Some [OF a] le by (simp add: word_le_nat_alt)
  have x2: "unat dso + unat (offset x) + unat nb \<le> unat fsize"
    if nb: "tensor_nbytes x = Some nb" for nb
  proof -
    from Cons.prems(1) a le nb obtain e where
      e: "add_overflow_u64 abs_off nb = Some e" and ele: "e \<le> fsize"
      by (auto split: option.splits if_splits simp: not_less)
    from add_overflow_u64_Some [OF e] add_overflow_u64_Some [OF a] ele
    show ?thesis by (simp add: word_le_nat_alt)
  qed
  have rest: "check_tensors dso fsize ts = Inr u"
    using Cons.prems(1) by (auto split: option.splits if_splits)
  show ?case
  proof (cases "t = x")
    case True
    with x1 x2 show ?thesis by blast
  next
    case False
    with Cons.prems(2) have "t \<in> set ts" by simp
    from Cons.IH [OF rest this] show ?thesis .
  qed
qed


section \<open>Overflow while parsing\<close>















section \<open>Tensor sizes from offsets\<close>

lemma checked_add_u64_ok:
  "unat a + unat b < 2 ^ 64 \<Longrightarrow> checked_add_u64 a b = Inr (a + b)"
  using add_overflow_u64_None_iff [of a b]
  by (simp add: checked_add_u64_def add_overflow_u64_def split: if_splits)

lemma sizes_loop_succeeds:
  assumes "\<forall>i\<in>set idx. i < length ts"
    and "sorted (map (\<lambda>i. offset (ts ! i)) idx)"
    and "\<forall>t\<in>set ts. unat dso + unat (offset t) \<le> unat fsize"
  shows "\<exists>out. sizes_loop dso fsize ts idx sizes = Inr out \<and> length out = length sizes"
  using assms(1,2)
proof (induction idx arbitrary: sizes)
  case Nil
  then show ?case by simp
next
  case (Cons cur rest)
  have fs: "unat fsize < 2 ^ 64"
    using unsigned_less [of fsize, where 'a = nat] by simp
  have bound: "unat dso + unat (offset (ts ! i)) \<le> unat fsize" if "i < length ts" for i
    using assms(3) that by simp
  have cur: "cur < length ts"
    using Cons.prems(1) by simp
  have c1: "checked_add_u64 dso (offset (ts ! cur)) = Inr (dso + offset (ts ! cur))"
    using bound [OF cur] fs by (intro checked_add_u64_ok) simp
  have ucur: "unat (dso + offset (ts ! cur)) = unat dso + unat (offset (ts ! cur))"
    using bound [OF cur] fs by (simp add: unat_word_ariths)
  have rest: "\<forall>i\<in>set rest. i < length ts" "sorted (map (\<lambda>i. offset (ts ! i)) rest)"
    using Cons.prems by simp_all
  show ?case
  proof (cases rest)
    case Nil
    have "\<not> fsize < dso + offset (ts ! cur)"
      using bound [OF cur] ucur by (simp add: word_less_nat_alt)
    with c1 Nil show ?thesis by simp
  next
    case (Cons nxt later)
    have nxt: "nxt < length ts"
      using rest(1) Cons by simp
    have c2: "checked_add_u64 dso (offset (ts ! nxt)) = Inr (dso + offset (ts ! nxt))"
      using bound [OF nxt] fs by (intro checked_add_u64_ok) simp
    have unxt: "unat (dso + offset (ts ! nxt)) = unat dso + unat (offset (ts ! nxt))"
      using bound [OF nxt] fs by (simp add: unat_word_ariths)
    have "offset (ts ! cur) \<le> offset (ts ! nxt)"
      using Cons.prems(2) Cons by simp
    then have "\<not> dso + offset (ts ! nxt) < dso + offset (ts ! cur)"
      using ucur unxt by (simp add: word_less_nat_alt word_le_nat_alt)
    moreover obtain out where
      "sizes_loop dso fsize ts rest
         (sizes[cur := dso + offset (ts ! nxt) - (dso + offset (ts ! cur))]) = Inr out"
      "length out = length sizes"
      using Cons.IH [OF rest] by fastforce
    ultimately show ?thesis
      using c1 c2 Cons by simp
  qed
qed


lemma sorted_indices_props:
  "\<forall>i\<in>set (sorted_indices ts). i < length ts"
  "sorted (map (\<lambda>i. offset (ts ! i)) (sorted_indices ts))"
  by (simp_all add: sorted_indices_def)

text \<open>
  C3 (corrected). The claim: when the tensor offsets, as ordered in the file, are not
  monotonically non-decreasing, the construction of the loader fails with "tensor offsets
  not monotonic". The constructor sorts the tensor indices by offset before it takes
  differences, and \<open>parse\<close> has tested every absolute offset against the file size. As
  amended: for every non-empty file that \<open>parse\<close> accepts, whatever the order of the
  offsets in the directory, the construction succeeds, with one size for each tensor.
\<close>

theorem loader_accepts_any_tensor_order:
  assumes "contents \<noteq> []" and "parse contents (of_nat (length contents)) = Inr g"
  shows "\<exists>sizes. GGUFLoader_ctor contents
            = Inr \<lparr>mapped = contents, gguf = g, tensor_size_from_offsets = sizes\<rparr>
          \<and> length sizes = length (tensors g)"
proof -
  from assms(2) have "check_tensors (data_section_offset g) (of_nat (length contents)) (tensors g)
      = Inr ()"
    by (rule parse_Inr_D)
  then have "\<forall>t\<in>set (tensors g).
      unat (data_section_offset g) + unat (offset t) \<le> unat (of_nat (length contents) :: size_t)"
    using check_tensors_Inr by blast
  from sizes_loop_succeeds [OF sorted_indices_props this,
      of "replicate (length (tensors g)) 0"]
  obtain out where
    "sizes_loop (data_section_offset g) (of_nat (length contents)) (tensors g)
       (sorted_indices (tensors g)) (replicate (length (tensors g)) 0) = Inr out"
    "length out = length (tensors g)"
    by auto
  with assms show ?thesis
    by (simp add: GGUFLoader_ctor_def MappedFile_def)
qed

lemma unordered_offsets_file_parsed:
  "case parse unordered_offsets_file (of_nat (length unordered_offsets_file)) of
     Inl e \<Rightarrow> False
   | Inr g \<Rightarrow> map offset (tensors g) = [32, 0]"
  by code_simp

lemma unordered_offsets_file_loaded:
  "case GGUFLoader_ctor unordered_offsets_file of
     Inl e \<Rightarrow> False
   | Inr l \<Rightarrow> map offset (tensors (gguf l)) = [32, 0] \<and> tensor_size_from_offsets l = [32, 32]"
  by code_simp

text \<open>On the file whose directory lists offset 32 before offset 0.\<close>

theorem loader_accepts_any_tensor_order_witness:
  "\<exists>l. GGUFLoader_ctor unordered_offsets_file = Inr l
       \<and> map offset (tensors (gguf l)) = [32, 0]
       \<and> length (tensor_size_from_offsets l) = 2"
proof -
  from unordered_offsets_file_parsed obtain g where
    g: "parse unordered_offsets_file (of_nat (length unordered_offsets_file)) = Inr g"
    and o: "map offset (tensors g) = [32, 0]"
    by (auto split: sum.splits)
  have ne: "unordered_offsets_file \<noteq> []"
    by (simp add: unordered_offsets_file_def)
  from o have "length (map offset (tensors g)) = 2"
    by simp
  then have len: "length (tensors g) = 2"
    by simp
  from loader_accepts_any_tensor_order [OF ne g] obtain sizes where
    "GGUFLoader_ctor unordered_offsets_file
       = Inr \<lparr>mapped = unordered_offsets_file, gguf = g, tensor_size_from_offsets = sizes\<rparr>"
    "length sizes = length (tensors g)"
    by blast
  with o len show ?thesis
    by (intro exI [of _ "\<lparr>mapped = unordered_offsets_file, gguf = g,
          tensor_size_from_offsets = sizes\<rparr>"]) simp
qed

text \<open>
  The claim as stated fails on that file: the offsets in file order are 32, 0, and the
  loader is constructed, with sizes 32 and 32.
\<close>

theorem unordered_offsets_accepted_counterexample:
  "\<exists>l. GGUFLoader_ctor unordered_offsets_file = Inr l
       \<and> map offset (tensors (gguf l)) = [32, 0]
       \<and> tensor_size_from_offsets l = [32, 32]"
  using unordered_offsets_file_loaded by (auto split: sum.splits)

section \<open>Grouped-query routing\<close>









section \<open>The half-precision decoder\<close>

lemma fp16_special_values: "fp16_to_fp32 0 = Some 0" "fp16_to_fp32 0x8000 = Some 0x80000000"
  "fp16_to_fp32 0x7C00 = Some 0x7F800000" "fp16_to_fp32 0xFC00 = Some 0xFF800000"
  "fp16_to_fp32 0x7E00 = Some 0x7FC00000" "fp16_to_fp32 0x3C00 = Some 0x3F800000"
  by (simp_all add: fp16_to_fp32_def)

lemma fp16_smallest_subnormal: "fp16_to_fp32 1 = Some 0x33800000"
  by (simp add: fp16_to_fp32_def normalize_subnormal.simps)

lemma f32_value_examples: "f32_value 0x33800000 = Fin (1 / 2 ^ 24)" "f32_value 0x7FC00000 = NaN"
  "f32_value 0x3F800000 = Fin 1" "f32_value 0x80000000 = Fin 0" "f32_value 0xFF800000 = NInf"
  "f16_value 1 = Fin (1 / 2 ^ 24)"
  by (simp_all add: f32_value_def f16_value_def ieee_value_def)

lemma consts16:
  "(0x8000 :: u16) = push_bit 15 1" "(0x7C00 :: u16) = push_bit 10 (mask 5)"
  "(0x03FF :: u16) = mask 10" "(0x1F :: u16) = mask 5"
  by (simp_all add: mask_eq_exp_minus_1)

lemma consts32:
  "(0xFF :: u32) = mask 8" "(0x7FFFFF :: u32) = mask 23" "(0x7F800000 :: u32) = push_bit 23 (mask 8)"
  "(0x0400 :: u32) = push_bit 10 1" "(0x03FF :: u32) = mask 10"
  by (simp_all add: mask_eq_exp_minus_1)

lemma bit_8000: "bit (0x8000 :: int) n \<longleftrightarrow> n = 15"
proof -
  have "(0x8000 :: int) = push_bit 15 1"
    by simp
  also have "bit (push_bit 15 (1 :: int)) n \<longleftrightarrow> n = 15"
    by (simp only: bit_push_bit_iff bit_1_iff) auto
  finally show ?thesis .
qed

lemma bit_0400: "bit (0x0400 :: int) n \<longleftrightarrow> n = 10"
proof -
  have "(0x0400 :: int) = push_bit 10 1"
    by simp
  also have "bit (push_bit 10 (1 :: int)) n \<longleftrightarrow> n = 10"
    by (simp only: bit_push_bit_iff bit_1_iff) auto
  finally show ?thesis .
qed

lemma sign_field:
  "push_bit 16 (ucast (h AND 0x8000) :: u32) = push_bit 31 (of_bool (bit h 15))"
  for h :: u16
proof (rule bit_eqI)
  fix n
  assume "possible_bit TYPE(u32) n"
  have "n < 32 \<Longrightarrow> 31 \<le> n \<Longrightarrow> n = 31"
    by arith
  then show "bit (push_bit 16 (ucast (h AND 0x8000) :: u32)) n
      \<longleftrightarrow> bit (push_bit 31 (of_bool (bit h 15)) :: u32) n"
    by (auto simp: bit_simps bit_8000)
qed

lemma ex_field:
  "drop_bit 10 (ucast (h AND 0x7C00) :: u32) = ucast (take_bit 5 (drop_bit 10 h))"
  for h :: u16
  unfolding consts16
  by (rule bit_eqI) (auto simp: bit_simps)

lemma mant_field:
  "(ucast (h AND 0x03FF) :: u32) = ucast (take_bit 10 h)"
  for h :: u16
  unfolding consts16
  by (rule bit_eqI) (auto simp: bit_simps)

lemma assemble_exp:
  "drop_bit 23 (push_bit 31 (of_bool s) OR push_bit 23 (take_bit 8 E) OR push_bit 13 (take_bit 10 M))
     AND 0xFF = take_bit 8 E"
  for E M :: u32
  unfolding consts32
  by (rule bit_eqI) (auto simp: bit_simps)

lemma assemble_mant:
  "(push_bit 31 (of_bool s) OR push_bit 23 (take_bit 8 E) OR push_bit 13 (take_bit 10 M))
     AND 0x7FFFFF = push_bit 13 (take_bit 10 M)"
  for E M :: u32
  unfolding consts32
  by (rule bit_eqI) (auto simp: bit_simps)

lemma assemble_sign:
  "bit (push_bit 31 (of_bool s) OR push_bit 23 (take_bit 8 E) OR push_bit 13 (take_bit 10 M)) 31
     = s"
  for E M :: u32
  by (auto simp: bit_simps)

lemma take_bit_self_u32: "unat w < 2 ^ n \<Longrightarrow> take_bit n w = w" for w :: u32
  by (simp add: word_eq_iff_unsigned [where 'a = nat] unsigned_take_bit_eq take_bit_nat_eq_self)

lemma unat_push_bit_u32:
  "unat w * 2 ^ n < 2 ^ 32 \<Longrightarrow> unat (push_bit n w) = unat w * 2 ^ n" for w :: u32
  by (subst unsigned_push_bit_eq) (simp add: push_bit_eq_mult take_bit_nat_eq_self)

lemma and_0400_eq_0_iff: "w AND 0x0400 = 0 \<longleftrightarrow> \<not> bit w 10" for w :: u32
proof
  assume "w AND 0x0400 = 0"
  then have "\<not> bit (w AND 0x0400) 10"
    by simp
  then show "\<not> bit w 10"
    by (simp add: bit_simps bit_0400)
next
  assume "\<not> bit w 10"
  then show "w AND 0x0400 = 0"
    by (intro bit_eqI) (auto simp: bit_simps bit_0400)
qed

lemma bit10_small: "unat w < 1024 \<Longrightarrow> \<not> bit w 10" for w :: u32
proof -
  assume "unat w < 1024"
  then have "take_bit 10 w = w"
    by (intro take_bit_self_u32) simp
  then have "bit w 10 = bit (take_bit 10 w) 10"
    by simp
  then show ?thesis
    by (simp add: bit_take_bit_iff)
qed

lemma bit10_normal: "1024 \<le> unat w \<Longrightarrow> unat w < 2048 \<Longrightarrow> bit w 10" for w :: u32
proof -
  assume a: "1024 \<le> unat w" "unat w < 2048"
  have "unat (drop_bit 10 w) = unat w div 2 ^ 10"
    by (subst unat_drop_bit_eq) (simp add: drop_bit_eq_div)
  also have "\<dots> = 1"
    using a by simp
  finally have "drop_bit 10 w = 1"
    by (simp add: word_eq_iff_unsigned [where 'a = nat])
  then show ?thesis
    by (simp add: bit_iff_odd_drop_bit)
qed

lemma normalize_subnormal_returns:
  "0 < unat mant \<Longrightarrow> unat mant < 2048 \<Longrightarrow>
     \<exists>k. normalize_subnormal mant ex = Some (push_bit k mant, ex - of_nat k)
        \<and> 1024 \<le> unat mant * 2 ^ k \<and> unat mant * 2 ^ k < 2048"
proof (induction "2048 - unat mant" arbitrary: mant ex rule: less_induct)
  case less
  show ?case
  proof (cases "unat mant < 1024")
    case False
    with less.prems have "bit mant 10"
      by (intro bit10_normal) simp_all
    then have "normalize_subnormal mant ex = Some (mant, ex)"
      by (subst normalize_subnormal.simps) (simp add: and_0400_eq_0_iff)
    with False less.prems show ?thesis
      by (intro exI [of _ 0]) simp
  next
    case True
    then have nb: "\<not> bit mant 10"
      by (rule bit10_small)
    have u: "unat (push_bit 1 mant) = unat mant * 2"
      using True unat_push_bit_u32 [of mant 1] by simp
    with less.prems True have
      "2048 - unat (push_bit 1 mant) < 2048 - unat mant"
      "0 < unat (push_bit 1 mant)" "unat (push_bit 1 mant) < 2048"
      by simp_all
    from less.hyps [OF this, of "ex - 1"] obtain k where
      k: "normalize_subnormal (push_bit 1 mant) (ex - 1)
            = Some (push_bit k (push_bit 1 mant), ex - 1 - of_nat k)"
      and b: "1024 \<le> unat (push_bit 1 mant) * 2 ^ k" "unat (push_bit 1 mant) * 2 ^ k < 2048"
      by blast
    have "normalize_subnormal mant ex = normalize_subnormal (push_bit 1 mant) (ex - 1)"
      using nb by (subst normalize_subnormal.simps) (simp add: and_0400_eq_0_iff)
    with k have "normalize_subnormal mant ex
        = Some (push_bit (Suc k) mant, ex - of_nat (Suc k))"
      by (simp add: push_bit_add ac_simps)
    moreover from b u have "1024 \<le> unat mant * 2 ^ Suc k" "unat mant * 2 ^ Suc k < 2048"
      by (simp_all add: ac_simps)
    ultimately show ?thesis
      by blast
  qed
qed

lemma f32_value_assemble:
  fixes E M :: u32
  assumes "unat E < 256" and "unat M < 1024"
  shows "f32_value (push_bit 31 (of_bool s) OR push_bit 23 E OR push_bit 13 M)
           = ieee_value 127 23 s (unat E) (unat M * 2 ^ 13)"
    and "bit (push_bit 31 (of_bool s) OR push_bit 23 E OR push_bit 13 M) 31 = s"
proof -
  from assms have E: "take_bit 8 E = E" and M: "take_bit 10 M = M"
    by (simp_all add: take_bit_self_u32)
  let ?b = "push_bit 31 (of_bool s) OR push_bit 23 E OR push_bit 13 M"
  have "drop_bit 23 ?b AND 0xFF = E"
    using assemble_exp [of s E M] by (simp only: E M)
  moreover have "?b AND 0x7FFFFF = push_bit 13 M"
    using assemble_mant [of s E M] by (simp only: E M)
  moreover have "unat (push_bit 13 M) = unat M * 2 ^ 13"
    using assms(2) by (intro unat_push_bit_u32) simp
  moreover show "bit ?b 31 = s"
    using assemble_sign [of s E M] by (simp only: E M)
  ultimately show "f32_value ?b = ieee_value 127 23 s (unat E) (unat M * 2 ^ 13)"
    by (simp only: f32_value_def)
qed

lemma f16_fields:
  fixes h :: u16
  defines "e \<equiv> unat (take_bit 5 (drop_bit 10 h))" and "m \<equiv> unat (take_bit 10 h)"
  shows "f16_value h = ieee_value 15 10 (bit h 15) e m"
    and "unat (ucast (take_bit 5 (drop_bit 10 h)) :: u32) = e"
    and "unat (ucast (take_bit 10 h) :: u32) = m"
    and "e < 32" and "m < 1024"
proof -
  show "f16_value h = ieee_value 15 10 (bit h 15) e m"
    unfolding f16_value_def consts16 e_def m_def
    by (simp only: take_bit_eq_mask)
  have e: "e < 2 ^ 5" and m: "m < 2 ^ 10"
    unfolding e_def m_def by (simp_all only: unsigned_take_bit_eq take_bit_nat_less_exp)
  then show "e < 32" and "m < 1024"
    by simp_all
  from e have "e < 2 ^ 32"
    by simp
  then show "unat (ucast (take_bit 5 (drop_bit 10 h)) :: u32) = e"
    unfolding e_def by (simp add: unsigned_ucast_eq take_bit_nat_eq_self)
  from m have "m < 2 ^ 32"
    by simp
  then show "unat (ucast (take_bit 10 h) :: u32) = m"
    unfolding m_def by (simp add: unsigned_ucast_eq take_bit_nat_eq_self)
qed

lemma fp16_to_fp32_fields:
  "fp16_to_fp32 h =
     (let sign = (push_bit 31 (of_bool (bit h 15)) :: u32);
          ex = (ucast (take_bit 5 (drop_bit 10 h)) :: u32);
          mant = (ucast (take_bit 10 h) :: u32)
      in if ex = 0 then
           (if mant = 0 then Some sign
            else (case normalize_subnormal mant 113 of
                    None \<Rightarrow> None
                  | Some (m, e) \<Rightarrow> Some (sign OR push_bit 23 e OR push_bit 13 (take_bit 10 m))))
         else if ex = 31 then Some (sign OR push_bit 23 0xFF OR push_bit 13 mant)
         else Some (sign OR push_bit 23 (ex + 112) OR push_bit 13 mant))"
proof -
  have "(0x7F800000 :: u32) = push_bit 23 0xFF"
    by simp
  moreover have "m AND 0x03FF = take_bit 10 m" for m :: u32
    by (simp only: consts32 take_bit_eq_mask)
  moreover have "(127 - 15 + 1 :: u32) = 113" "(127 - 15 :: u32) = 112"
    by simp_all
  ultimately show ?thesis
    by (simp only: fp16_to_fp32_def sign_field ex_field mant_field)
qed

lemma fp16_decode:
  "\<exists>b. fp16_to_fp32 h = Some b \<and> f32_value b = f16_value h \<and> bit b 31 = bit h 15"
proof -
  define s where "s = bit h 15"
  define ex :: u32 where "ex = ucast (take_bit 5 (drop_bit 10 h))"
  define mant :: u32 where "mant = ucast (take_bit 10 h)"
  define e where "e = unat ex"
  define m where "m = unat mant"
  note f = f16_fields [of h, folded ex_def mant_def s_def e_def m_def]
  have v16: "f16_value h = ieee_value 15 10 s e m" and e: "e < 32" and m: "m < 1024"
    using f by simp_all
  let ?sign = "push_bit 31 (of_bool s) :: u32"
  note fn = fp16_to_fp32_fields [of h, folded ex_def mant_def s_def]
  have ex0: "ex = 0 \<longleftrightarrow> e = 0" and mant0: "mant = 0 \<longleftrightarrow> m = 0"
    by (simp_all add: e_def m_def unat_eq_0)
  have ex31: "ex = 31 \<longleftrightarrow> e = 31"
    by (simp add: e_def word_eq_iff_unsigned [where 'a = nat])
  consider (zero) "e = 0" "m = 0" | (sub) "e = 0" "m \<noteq> 0" | (special) "e = 31"
    | (normal) "0 < e" "e < 31"
    using e by linarith
  then show ?thesis
  proof cases
    case zero
    then have r: "fp16_to_fp32 h = Some (?sign OR push_bit 23 0 OR push_bit 13 0)"
      using fn ex0 mant0 by (simp add: Let_def)
    have "f32_value (?sign OR push_bit 23 0 OR push_bit 13 0) = ieee_value 127 23 s 0 0"
      and "bit (?sign OR push_bit 23 0 OR push_bit 13 0) 31 = s"
      using f32_value_assemble [of 0 0 s] by simp_all
    moreover have "ieee_value 127 23 s 0 0 = ieee_value 15 10 s 0 0"
      by (simp add: ieee_value_def)
    ultimately show ?thesis
      using r v16 zero by (simp add: s_def)
  next
    case special
    then have r: "fp16_to_fp32 h = Some (?sign OR push_bit 23 0xFF OR push_bit 13 mant)"
      using fn ex0 ex31 by (simp add: Let_def)
    have "f32_value (?sign OR push_bit 23 0xFF OR push_bit 13 mant)
            = ieee_value 127 23 s 255 (m * 2 ^ 13)"
      and "bit (?sign OR push_bit 23 0xFF OR push_bit 13 mant) 31 = s"
      using f32_value_assemble [of "0xFF" mant s] m by (simp_all add: m_def)
    moreover have "ieee_value 127 23 s 255 (m * 2 ^ 13) = ieee_value 15 10 s 31 m"
      by (simp add: ieee_value_def)
    ultimately show ?thesis
      using r v16 special by (simp add: s_def)
  next
    case normal
    then have r: "fp16_to_fp32 h = Some (?sign OR push_bit 23 (ex + 112) OR push_bit 13 mant)"
      using fn ex0 ex31 by (simp add: Let_def)
    have ue: "unat (ex + 112) = e + 112"
      using e by (simp add: e_def unat_word_ariths)
    have "f32_value (?sign OR push_bit 23 (ex + 112) OR push_bit 13 mant)
            = ieee_value 127 23 s (e + 112) (m * 2 ^ 13)"
      and "bit (?sign OR push_bit 23 (ex + 112) OR push_bit 13 mant) 31 = s"
      using f32_value_assemble [of "ex + 112" mant s] m e ue by (simp_all add: m_def)
    moreover have "ieee_value 127 23 s (e + 112) (m * 2 ^ 13) = ieee_value 15 10 s e m"
    proof -
      have "(2 :: rat) ^ (e + 112) = 2 ^ e * 2 ^ 112"
        by (simp add: power_add)
      moreover have "max e 1 = e" and "max (e + 112) 1 = e + 112"
        using normal by simp_all
      ultimately show ?thesis
        using normal by (simp add: ieee_value_def field_simps)
    qed
    ultimately show ?thesis
      using r v16 by (simp add: s_def)
  next
    case sub
    then have "0 < unat mant" and "unat mant < 2048"
      using m by (simp_all add: m_def)
    from normalize_subnormal_returns [OF this, of 113] obtain k where
      n: "normalize_subnormal mant 113 = Some (push_bit k mant, 113 - of_nat k)"
      and lo: "1024 \<le> m * 2 ^ k" and hi: "m * 2 ^ k < 2048"
      by (auto simp: m_def)
    have r: "fp16_to_fp32 h
        = Some (?sign OR push_bit 23 (113 - of_nat k) OR push_bit 13 (take_bit 10 (push_bit k mant)))"
      using fn ex0 mant0 sub n by (simp add: Let_def)
    have "1 * (2 :: nat) ^ k \<le> m * 2 ^ k"
      using sub by (intro mult_le_mono1) simp
    then have "(2 :: nat) ^ k \<le> m * 2 ^ k"
      by simp
    then have "(2 :: nat) ^ k < 2048"
      using hi by (rule le_less_trans)
    then have "(2 :: nat) ^ k < 2 ^ 11"
      by simp
    then have k: "k < 11"
      by (simp only: power_strict_increasing_iff)
    then have uk: "unat (of_nat k :: u32) = k"
      by (intro of_nat_inverse) simp_all
    then have "(of_nat k :: u32) \<le> 113"
      using k by (simp add: word_le_nat_alt)
    then have uE: "unat (113 - of_nat k :: u32) = 113 - k"
      using uk by (simp add: unat_sub)
    have up: "unat (push_bit k mant) = m * 2 ^ k"
      using hi unat_push_bit_u32 [of mant k] by (simp add: m_def)
    have "unat (take_bit 10 (push_bit k mant)) = take_bit 10 (unat (push_bit k mant))"
      by (rule unsigned_take_bit_eq)
    also have "\<dots> = (m * 2 ^ k) mod 2 ^ 10"
      unfolding up by (rule take_bit_eq_mod)
    also have "\<dots> = m * 2 ^ k - 1024"
      using lo hi by (simp add: mod_if)
    finally have uM: "unat (take_bit 10 (push_bit k mant)) = m * 2 ^ k - 1024" .
    have "f32_value (?sign OR push_bit 23 (113 - of_nat k)
              OR push_bit 13 (take_bit 10 (push_bit k mant)))
            = ieee_value 127 23 s (113 - k) ((m * 2 ^ k - 1024) * 2 ^ 13)"
      and "bit (?sign OR push_bit 23 (113 - of_nat k)
              OR push_bit 13 (take_bit 10 (push_bit k mant))) 31 = s"
      using f32_value_assemble [of "113 - of_nat k" "take_bit 10 (push_bit k mant)" s]
        uE uM hi by simp_all
    moreover have "ieee_value 127 23 s (113 - k) ((m * 2 ^ k - 1024) * 2 ^ 13)
        = ieee_value 15 10 s 0 m"
    proof -
      have "2 ^ 23 + (m * 2 ^ k - 1024) * 2 ^ 13 = m * 2 ^ k * 2 ^ 13"
        using lo by simp
      moreover have "(2 :: rat) ^ k * 2 ^ (113 - k) = 2 ^ 113"
        using k by (simp flip: power_add)
      then have "of_nat (m * 2 ^ k * 2 ^ 13) * (2 :: rat) ^ (113 - k) = of_nat m * 2 ^ 126"
        by (simp add: mult.assoc mult.left_commute)
      ultimately have "of_nat (2 ^ 23 + (m * 2 ^ k - 1024) * 2 ^ 13) * (2 :: rat) ^ (113 - k)
          = of_nat m * 2 ^ 126"
        by (simp only:)
      moreover have "113 - k \<noteq> 0" and "113 - k \<noteq> 255" and "max (113 - k) 1 = 113 - k"
        using k by simp_all
      ultimately show ?thesis
        by (simp add: ieee_value_def ac_simps)
    qed
    ultimately show ?thesis
      using r v16 sub by (simp add: s_def)
  qed
qed

text \<open>
  C6 (confirmed). \<open>fp16_to_fp32\<close> decodes every 16-bit half per IEEE 754: it returns for
  every half, the binary32 value of the result is the binary16 value of the argument
  (zeros, subnormal and normal numbers exactly, infinities to infinities, NaN to NaN) and
  the sign bit is kept; \<open>0x0000\<close> gives \<open>+0\<close>, \<open>0x8000\<close> gives \<open>-0\<close>, \<open>0x7C00\<close> gives
  \<open>+Inf\<close>, \<open>0xFC00\<close> gives \<open>-Inf\<close>, \<open>0x7E00\<close> gives a NaN and the subnormal \<open>0x0001\<close>
  gives \<open>2^-24\<close>.
\<close>

theorem fp16_to_fp32_ieee:
  "(\<forall>h. \<exists>b. fp16_to_fp32 h = Some b \<and> f32_value b = f16_value h \<and> bit b 31 = bit h 15)
   \<and> fp16_to_fp32 0x0000 = Some 0x00000000
   \<and> fp16_to_fp32 0x8000 = Some 0x80000000
   \<and> fp16_to_fp32 0x7C00 = Some 0x7F800000 \<and> f32_value 0x7F800000 = PInf
   \<and> fp16_to_fp32 0xFC00 = Some 0xFF800000 \<and> f32_value 0xFF800000 = NInf
   \<and> fp16_to_fp32 0x7E00 = Some 0x7FC00000 \<and> f32_value 0x7FC00000 = NaN
   \<and> fp16_to_fp32 0x0001 = Some 0x33800000 \<and> f32_value 0x33800000 = Fin (1 / 2 ^ 24)"
proof -
  have "f32_value 0x7F800000 = PInf"
    by (simp add: f32_value_def ieee_value_def)
  with fp16_decode fp16_special_values fp16_smallest_subnormal f32_value_examples
  show ?thesis
    by (intro conjI allI) simp_all
qed

section \<open>The block dequantizers\<close>

lemma half_one: "half_to_float 0x3C00 = Fin 1" "half_to_float 0 = Fin 0"
  by (simp_all add: half_to_float_def fp16_to_fp32_def f32_value_def ieee_value_def)

lemma scales_unit:
  "g < 4 \<Longrightarrow> get_scale_min_k4 (2 * g) (replicate 12 1) = (1, if g < 2 then 1 else 0)"
  "g < 4 \<Longrightarrow> get_scale_min_k4 (Suc (2 * g)) (replicate 12 1) = (1, if g < 2 then 1 else 0)"
  by (auto simp: get_scale_min_k4_def)


lemma map_const_upt: "(\<And>l. l < n \<Longrightarrow> f l = c) \<Longrightarrow> map f [0..<n] = replicate n c"
  by (simp add: list_eq_iff_nth_eq)

lemma q4_group_unit:
  assumes "rnd 0 = Fin 0" and "rnd 1 = Fin 1" and "g < 4"
  shows "q4_group rnd unit_q4_block g = replicate 32 (Fin 0) @ replicate 32 (Fin 1)"
proof -
  have q: "drop (32 * g) (replicate 128 (0x10 :: u8)) ! l = 0x10" if "l < 32" for l
    using that assms(3) by simp
  have lo: "fp_sub rnd (fp_mul rnd (fp_mul rnd (Fin 1) (fp_of_u8 1))
              (fp_of_u8 0)) (fp_mul rnd (Fin 0) (fp_of_u8 m)) = Fin 0" for m
    using assms(1,2) by (simp add: fp_sub_def fp_of_u8_def)
  have hi: "fp_sub rnd (fp_mul rnd (fp_mul rnd (Fin 1) (fp_of_u8 1))
              (fp_of_u8 1)) (fp_mul rnd (Fin 0) (fp_of_u8 m)) = Fin 1" for m
    using assms(1,2) by (simp add: fp_sub_def fp_of_u8_def)
  show ?thesis
    using assms(3)
    by (simp add: q4_group_def unit_q4_block_def half_one scales_unit Let_def
        map_const_upt q lo hi del: upt_rec_numeral)
qed

text \<open>
  C5 (confirmed). Dequantizing the single Q4_K block with \<open>d = 1.0\<close>, \<open>dmin = 0.0\<close>, all
  scale bytes 1 and all \<open>qs\<close> bytes \<open>0x10\<close> writes exactly 256 floats: 32 zeros then 32
  ones, four times; the rest of the buffer is untouched. The rounding of the arithmetic
  is any rounding that leaves 0 and 1, which are floats, unchanged.
\<close>

theorem q4_k_unit_block_pattern:
  assumes "rnd 0 = Fin 0" and "rnd 1 = Fin 1"
  shows "dequantize_row_q4_k rnd [unit_q4_block] y 256
           = Inr (concat (replicate 4 (replicate 32 (Fin 0) @ replicate 32 (Fin 1)))
                   @ drop 256 y)"
proof -
  let ?pat = "replicate 32 (Fin 0) @ replicate 32 (Fin 1)"
  have "map (q4_group rnd unit_q4_block) [0..<4] = replicate 4 ?pat"
    using q4_group_unit [OF assms] by (intro map_const_upt)
  then have b: "q4_block rnd unit_q4_block = concat (replicate 4 ?pat)"
    by (simp only: q4_block_def)
  have len: "length (concat (replicate 4 ?pat)) = 256"
    by (simp add: length_concat sum_list_replicate)
  have k: "(256 :: int) smod QK_K = 0" "nat (sint (word_of_int (256 sdiv QK_K) :: 32 word)) = 1"
    by (simp_all add: QK_K_def signed_modulo_int_def signed_divide_int_def)
  have "concat (map (\<lambda>i. q4_block rnd ([unit_q4_block] ! i)) [0..<1]) = concat (replicate 4 ?pat)"
    by (simp add: b)
  with k len show ?thesis
    by (simp only: dequantize_row_q4_k_def Let_def if_False simp_thms)
qed

text \<open>With exact arithmetic, on a buffer of 256 NaNs.\<close>

theorem q4_k_unit_block_pattern_witness:
  "dequantize_row_q4_k Fin [unit_q4_block] (replicate 256 NaN) 256
     = Inr (concat (replicate 4 (replicate 32 (Fin 0) @ replicate 32 (Fin 1))))"
  using q4_k_unit_block_pattern [of Fin "replicate 256 NaN"] by simp



section \<open>Softmax\<close>








end
